theory Spec2Isabelle
  imports Complex_Main "HOL-Library.Sublist" "HOL-Library.List_Lexorder"
begin

section \<open>Python strings\<close>

text \<open>
  A Python \<^verbatim>\<open>str\<close> is a sequence of Unicode code points, and \<^verbatim>\<open>len\<close> counts code
  points. The parser works on Russian text, so a string is a list of code points
  (integers, as \<^verbatim>\<open>ord\<close> gives them), not a list of bytes. \<open>ascii\<close> reads an ASCII
  literal.
\<close>

type_synonym uchar = int

type_synonym ustr = "uchar list"

definition ascii :: "string \<Rightarrow> ustr" where
  "ascii s = map of_char s"

text \<open>
  Two library functions depend on the tables of the Unicode database: \<^verbatim>\<open>str.lower()\<close>
  (which may even change the length of a string) and the regular expression class
  \<^verbatim>\<open>\w\<close>. They are not modelled: every function below that calls them takes them as
  the parameters \<open>lower\<close> and \<open>is_word\<close>, and the theorems hold for every choice of
  them.

  The examples are on ASCII strings, where \<^verbatim>\<open>str.lower()\<close> maps \<^verbatim>\<open>A\<close>..\<^verbatim>\<open>Z\<close> to
  \<^verbatim>\<open>a\<close>..\<^verbatim>\<open>z\<close> and \<^verbatim>\<open>\w\<close> is a letter, a digit or the underscore. \<open>ascii_lower\<close> and
  \<open>ascii_word\<close> instantiate the parameters there, and nowhere else.
\<close>

definition ascii_lower :: "ustr \<Rightarrow> ustr" where
  "ascii_lower s = map (\<lambda>c. if 65 \<le> c \<and> c \<le> 90 then c + 32 else c) s"

definition ascii_word :: "uchar \<Rightarrow> bool" where
  "ascii_word c =
     ((48 \<le> c \<and> c \<le> 57) \<or> (65 \<le> c \<and> c \<le> 90) \<or> c = 95 \<or> (97 \<le> c \<and> c \<le> 122))"

text \<open>\<^verbatim>\<open>needle in haystack\<close> on strings: the needle occurs at some position.\<close>

fun startswith :: "ustr \<Rightarrow> ustr \<Rightarrow> bool" where
  "startswith s [] = True"
| "startswith [] (p # ps) = False"
| "startswith (c # cs) (p # ps) = (c = p \<and> startswith cs ps)"

fun str_contains :: "ustr \<Rightarrow> ustr \<Rightarrow> bool" where
  "str_contains [] needle = (needle = [])"
| "str_contains (c # cs) needle = (startswith (c # cs) needle \<or> str_contains cs needle)"

definition endswith :: "ustr \<Rightarrow> ustr \<Rightarrow> bool" where
  "endswith s e = (length e \<le> length s \<and> drop (length s - length e) s = e)"

section \<open>Fuzzy matcher\<close>

text \<open>The list \<^verbatim>\<open>endings\<close> of \<^verbatim>\<open>fuzzy_match_word\<close>, in the order of the source,
  repetitions included.\<close>

definition endings :: "ustr list" where
  "endings =
     [[1072], [1099], [1086, 1074], [1077, 1081], [1072, 1084], [1072, 1084, 1080],
      [1072, 1093], [1086, 1084], [1086, 1075, 1086], [1086, 1084, 1091], [1080, 1084],
      [1077, 1084], [1086, 1075, 1086], [1077, 1084, 1091], [1080, 1084, 1080],
      [1080, 1084, 1080], [1086, 1081], [1091, 1102], [1102], [1080, 1077], [1080, 1093],
      [1080, 1084], [1099, 1084, 1080], [1072, 1103], [1103, 1103], [1086, 1077],
      [1077, 1077], [1080, 1077], [1077, 1081], [1091, 1102], [1102, 1102], [1080, 1077],
      [1080, 1093], [1080, 1084]]"

text \<open>
  The loop \<^verbatim>\<open>for ending in endings\<close>. \<^verbatim>\<open>keyword_lower[:-len(ending)]\<close> is only read
  when the keyword ends with the ending, where it is the keyword without its last
  \<^verbatim>\<open>len(ending)\<close> characters.
\<close>

fun match_endings :: "ustr \<Rightarrow> ustr \<Rightarrow> ustr list \<Rightarrow> bool" where
  "match_endings word_lower keyword_lower [] = False"
| "match_endings word_lower keyword_lower (ending # rest) =
     (if word_lower = keyword_lower @ ending then True
      else if endswith keyword_lower ending
              \<and> word_lower = take (length keyword_lower - length ending) keyword_lower
           then True
      else match_endings word_lower keyword_lower rest)"

text \<open>
  The nested \<^verbatim>\<open>levenshtein_distance\<close>. \<open>lev_row\<close> is the inner loop over
  \<^verbatim>\<open>enumerate(s2)\<close>, which appends to \<^verbatim>\<open>current_row\<close>; \<open>lev_rows\<close> is the outer loop
  over \<^verbatim>\<open>enumerate(s1)\<close>. The rows are read by index as in the source:
  \<^verbatim>\<open>previous_row\<close> always has \<^verbatim>\<open>len(s2) + 1\<close> entries and \<^verbatim>\<open>current_row\<close> has
  \<^verbatim>\<open>j + 1\<close> entries when column \<^verbatim>\<open>j\<close> is computed, so no read is out of range.
\<close>

fun lev_row :: "uchar \<Rightarrow> nat list \<Rightarrow> (nat \<times> uchar) list \<Rightarrow> nat list \<Rightarrow> nat list" where
  "lev_row c1 previous_row [] current_row = current_row"
| "lev_row c1 previous_row ((j, c2) # rest) current_row =
     (let insertions = previous_row ! (j + 1) + 1;
          deletions = current_row ! j + 1;
          substitutions = previous_row ! j + (if c1 \<noteq> c2 then 1 else 0)
      in lev_row c1 previous_row rest
           (current_row @ [min insertions (min deletions substitutions)]))"

fun lev_rows :: "(nat \<times> uchar) list \<Rightarrow> ustr \<Rightarrow> nat list \<Rightarrow> nat list" where
  "lev_rows [] s2 previous_row = previous_row"
| "lev_rows ((i, c1) # rest) s2 previous_row =
     lev_rows rest s2 (lev_row c1 previous_row (enumerate 0 s2) [i + 1])"

definition lev_ordered :: "ustr \<Rightarrow> ustr \<Rightarrow> nat" where
  "lev_ordered s1 s2 =
     (if length s2 = 0 then length s1
      else last (lev_rows (enumerate 0 s1) s2 [0..<length s2 + 1]))"

definition levenshtein_distance :: "ustr \<Rightarrow> ustr \<Rightarrow> nat" where
  "levenshtein_distance s1 s2 =
     (if length s1 < length s2 then lev_ordered s2 s1 else lev_ordered s1 s2)"

definition fuzzy_match_word :: "(ustr \<Rightarrow> ustr) \<Rightarrow> ustr \<Rightarrow> ustr \<Rightarrow> bool" where
  "fuzzy_match_word lower word keyword =
     (let word_lower = lower word; keyword_lower = lower keyword
      in if word_lower = keyword_lower then True
         else if str_contains word_lower keyword_lower then True
         else if match_endings word_lower keyword_lower endings then True
         else if length keyword \<le> 6 \<and> length word \<le> 8
                 \<and> levenshtein_distance word_lower keyword_lower \<le> 2 then True
         else False)"

subsection \<open>The notions of the specification\<close>

text \<open>
  The Levenshtein distance by its recurrence on prefixes: \<open>lev_prefix a b i j\<close> is the
  distance between the first \<open>i\<close> characters of \<open>a\<close> and the first \<open>j\<close> characters of
  \<open>b\<close>.
\<close>

fun lev_prefix :: "ustr \<Rightarrow> ustr \<Rightarrow> nat \<Rightarrow> nat \<Rightarrow> nat" where
  "lev_prefix a b 0 j = j"
| "lev_prefix a b (Suc i) 0 = Suc i"
| "lev_prefix a b (Suc i) (Suc j) =
     min (lev_prefix a b i (Suc j) + 1)
         (min (lev_prefix a b (Suc i) j + 1)
              (lev_prefix a b i j + (if a ! i = b ! j then 0 else 1)))"

definition levenshtein :: "ustr \<Rightarrow> ustr \<Rightarrow> nat" where
  "levenshtein a b = lev_prefix a b (length a) (length b)"

text \<open>The suffix heuristic in the words of the specification: the word is the keyword
  plus an ending, or the keyword is the word plus an ending.\<close>

definition suffix_relation :: "ustr \<Rightarrow> ustr \<Rightarrow> bool" where
  "suffix_relation w k = (\<exists>e \<in> set endings. w = k @ e \<or> k = w @ e)"

section \<open>Whitespace, words and sentences\<close>

text \<open>
  \<^verbatim>\<open>str.strip()\<close>, \<^verbatim>\<open>str.split()\<close> and the regular expression class \<^verbatim>\<open>\s\<close> use the same
  set of white-space code points.
\<close>

definition is_space :: "uchar \<Rightarrow> bool" where
  "is_space c =
     ((9 \<le> c \<and> c \<le> 13) \<or> (28 \<le> c \<and> c \<le> 32) \<or> c = 133 \<or> c = 160 \<or> c = 5760
      \<or> (8192 \<le> c \<and> c \<le> 8202) \<or> c = 8232 \<or> c = 8233 \<or> c = 8239 \<or> c = 8287
      \<or> c = 12288)"

definition py_strip :: "ustr \<Rightarrow> ustr" where
  "py_strip s = rev (dropWhile is_space (rev (dropWhile is_space s)))"

text \<open>\<^verbatim>\<open>re.findall(r'\b\w+\b', s)\<close>: the maximal runs of word characters, left to right.
  The second argument is the run being read, reversed.\<close>

fun find_words :: "(uchar \<Rightarrow> bool) \<Rightarrow> ustr \<Rightarrow> ustr \<Rightarrow> ustr list" where
  "find_words is_word run [] = (if run = [] then [] else [rev run])"
| "find_words is_word run (c # cs) =
     (if is_word c then find_words is_word (c # run) cs
      else if run = [] then find_words is_word [] cs
      else rev run # find_words is_word [] cs)"

text \<open>\<^verbatim>\<open>s.split()\<close>: the maximal runs of characters that are not white space.\<close>

fun split_whitespace :: "ustr \<Rightarrow> ustr \<Rightarrow> ustr list" where
  "split_whitespace run [] = (if run = [] then [] else [rev run])"
| "split_whitespace run (c # cs) =
     (if \<not> is_space c then split_whitespace (c # run) cs
      else if run = [] then split_whitespace [] cs
      else rev run # split_whitespace [] cs)"

text \<open>\<^verbatim>\<open>sep.join(parts)\<close>.\<close>

fun join :: "ustr \<Rightarrow> ustr list \<Rightarrow> ustr" where
  "join sep [] = []"
| "join sep [x] = x"
| "join sep (x # y # ys) = x @ sep @ join sep (y # ys)"

text \<open>
  \<^verbatim>\<open>re.split(r'(?<=[.!?])\s+', s)\<close>: a separator is a maximal run of white space that
  comes right after one of \<^verbatim>\<open>.\<close>, \<^verbatim>\<open>!\<close>, \<^verbatim>\<open>?\<close>. The first argument is the piece being read,
  reversed, so its head is the character before the current one.
\<close>

definition is_sentence_end :: "uchar \<Rightarrow> bool" where
  "is_sentence_end c = (c = 46 \<or> c = 33 \<or> c = 63)"

function split_sentences :: "ustr \<Rightarrow> ustr \<Rightarrow> ustr list" where
  "split_sentences piece [] = [rev piece]"
| "split_sentences piece (c # cs) =
     (if is_space c \<and> piece \<noteq> [] \<and> is_sentence_end (hd piece)
      then rev piece # split_sentences [] (dropWhile is_space cs)
      else split_sentences (c # piece) cs)"
  by pat_completeness auto
termination
  by (relation "measure (\<lambda>(piece, s). length s)")
     (auto simp: le_imp_less_Suc length_dropWhile_le)

section \<open>Keyword validation\<close>

text \<open>The loop of \<^verbatim>\<open>validate_keywords\<close>; the second argument is the list \<^verbatim>\<open>validated\<close>.\<close>

fun validate_loop :: "ustr list \<Rightarrow> ustr list \<Rightarrow> ustr list" where
  "validate_loop [] validated = validated"
| "validate_loop (kw # rest) validated =
     (let kw = py_strip kw
      in if length kw < 2 then validate_loop rest validated
         else validate_loop rest
                (validated @ [if length kw > 50 then take 50 kw else kw]))"

definition validate_keywords :: "ustr list \<Rightarrow> ustr list" where
  "validate_keywords keywords =
     (if keywords = [] then [] else take 10 (validate_loop keywords []))"

section \<open>Sentence extractor\<close>

text \<open>
  The loop \<^verbatim>\<open>for sentence in sentences\<close> of \<^verbatim>\<open>extract_relevant_sentences\<close>. The two nested
  loops with \<^verbatim>\<open>break\<close> set \<^verbatim>\<open>has_match\<close> when some word matches some keyword.
\<close>

fun relevant_loop ::
  "(ustr \<Rightarrow> ustr) \<Rightarrow> (uchar \<Rightarrow> bool) \<Rightarrow> ustr list \<Rightarrow> ustr list \<Rightarrow> ustr list" where
  "relevant_loop lower is_word [] kws = []"
| "relevant_loop lower is_word (sentence # rest) kws =
     (let sentence_lower = py_strip (lower sentence)
      in if sentence_lower = [] then relevant_loop lower is_word rest kws
         else let words = find_words is_word [] sentence_lower;
                  has_match =
                    list_ex (\<lambda>word. list_ex (fuzzy_match_word lower word) kws) words
              in if has_match
                 then (let clean_sentence = join [32] (split_whitespace [] sentence)
                       in if clean_sentence \<noteq> [] \<and> length clean_sentence > 10
                          then clean_sentence # relevant_loop lower is_word rest kws
                          else relevant_loop lower is_word rest kws)
                 else relevant_loop lower is_word rest kws)"

definition extract_relevant_sentences ::
  "(ustr \<Rightarrow> ustr) \<Rightarrow> (uchar \<Rightarrow> bool) \<Rightarrow> ustr \<Rightarrow> ustr list \<Rightarrow> ustr list" where
  "extract_relevant_sentences lower is_word text kws =
     (if text = [] \<or> kws = [] then []
      else relevant_loop lower is_word (split_sentences [] (py_strip text)) kws)"

section \<open>Search results and their cache\<close>

record SearchResult =
  channel :: ustr
  message_id :: int
  date :: ustr
  snippet :: ustr
  link :: ustr

text \<open>
  The cache directory holds one JSON file per key. A file written by
  \<^verbatim>\<open>save_cached_results\<close> is an object with a timestamp and a list of objects (Python
  dictionaries, here association lists from field names to values); any other content,
  on which the body of the \<^verbatim>\<open>try\<close> in \<^verbatim>\<open>load_cached_results\<close> raises, is \<open>Malformed\<close>.
  Times are real numbers, in seconds: the source subtracts two floating-point times,
  and the difference of two such times within a factor of two of each other, as two
  epoch times an hour apart are, is exact. Opening, writing and deleting a file are taken
  to succeed; the one failure of the write that is modelled is the one that the data
  decide, the encoding of the text as UTF-8.
\<close>

datatype json = JStr ustr | JInt int

type_synonym json_obj = "(string \<times> json) list"

datatype cache_file = Stored real "json_obj list" | Malformed

definition CACHE_TTL :: real where
  "CACHE_TTL = 3600"

text \<open>
  The file is opened with \<^verbatim>\<open>encoding='utf-8'\<close> and written with \<^verbatim>\<open>ensure_ascii=False\<close>:
  a surrogate code point (U+D800..U+DFFF) in a string makes the write raise
  \<^verbatim>\<open>UnicodeEncodeError\<close>, after the file has been truncated and partly written.
\<close>

definition encodable :: "ustr \<Rightarrow> bool" where
  "encodable s = list_all (\<lambda>c. c < 55296 \<or> 57343 < c) s"

definition result_encodable :: "SearchResult \<Rightarrow> bool" where
  "result_encodable r =
     (encodable (channel r) \<and> encodable (date r) \<and> encodable (snippet r)
      \<and> encodable (link r))"

definition to_item :: "SearchResult \<Rightarrow> json_obj" where
  "to_item r =
     [(''channel'', JStr (channel r)), (''message_id'', JInt (message_id r)),
      (''date'', JStr (date r)), (''snippet'', JStr (snippet r)),
      (''link'', JStr (link r))]"

text \<open>\<^verbatim>\<open>save_cached_results\<close>; \<open>now\<close> is the value of \<^verbatim>\<open>time.time()\<close>. The exception of a
  failed write is caught and logged, and the truncated file stays behind.\<close>

definition save_cached_results ::
  "'k \<Rightarrow> SearchResult list \<Rightarrow> real \<Rightarrow> ('k \<rightharpoonup> cache_file) \<Rightarrow> ('k \<rightharpoonup> cache_file)" where
  "save_cached_results cache_key results now files =
     (let results_data = map to_item results
      in if list_all result_encodable results
         then files(cache_key \<mapsto> Stored now results_data)
         else files(cache_key \<mapsto> Malformed))"

text \<open>
  \<^verbatim>\<open>SearchResult(**item)\<close> raises unless the keys of \<open>item\<close> are exactly the five
  fields. A value of another JSON type than its field's has no counterpart in the typed
  record; no file written by \<open>save_cached_results\<close> holds one.
\<close>

definition of_item :: "json_obj \<Rightarrow> SearchResult option" where
  "of_item item =
     (case (map_of item ''channel'', map_of item ''message_id'', map_of item ''date'',
            map_of item ''snippet'', map_of item ''link'') of
        (Some (JStr c), Some (JInt m), Some (JStr d), Some (JStr s), Some (JStr l)) \<Rightarrow>
          if length item = 5
          then Some \<lparr>channel = c, message_id = m, date = d, snippet = s, link = l\<rparr>
          else None
      | _ \<Rightarrow> None)"

text \<open>\<^verbatim>\<open>load_cached_results\<close> returns the results, or \<open>None\<close>, and the files it leaves.\<close>

definition load_cached_results ::
  "'k \<Rightarrow> real \<Rightarrow> ('k \<rightharpoonup> cache_file) \<Rightarrow> SearchResult list option \<times> ('k \<rightharpoonup> cache_file)" where
  "load_cached_results cache_key now files =
     (case files cache_key of
        None \<Rightarrow> (None, files)
      | Some Malformed \<Rightarrow> (None, files)
      | Some (Stored timestamp items) \<Rightarrow>
          if now - timestamp > CACHE_TTL then (None, files(cache_key := None))
          else (case those (map of_item items) of
                  None \<Rightarrow> (None, files)
                | Some results \<Rightarrow> (Some results, files)))"

text \<open>
  \<^verbatim>\<open>get_cache_key\<close> hashes the text of the sorted channels, the sorted keywords and the
  limit. The digest is represented by what it digests.
\<close>

type_synonym cache_key = "ustr list \<times> ustr list \<times> int"


section \<open>Result formatter\<close>

text \<open>The text of an integer in an f-string.\<close>

fun digits :: "nat \<Rightarrow> ustr" where
  "digits n = (if n < 10 then [48 + int n] else digits (n div 10) @ [48 + int (n mod 10)])"

definition str_of_int :: "int \<Rightarrow> ustr" where
  "str_of_int i = (if i < 0 then 45 # digits (nat (- i)) else digits (nat i))"

text \<open>A slice \<^verbatim>\<open>xs[start:stop]\<close>: a negative bound counts from the end of the list, and
  both bounds are clamped to the list.\<close>

definition slice_index :: "nat \<Rightarrow> int \<Rightarrow> nat" where
  "slice_index n i = (if i < 0 then nat (max 0 (int n + i)) else min n (nat i))"

definition py_slice :: "'a list \<Rightarrow> int \<Rightarrow> int \<Rightarrow> 'a list" where
  "py_slice xs start stop =
     drop (slice_index (length xs) start) (take (slice_index (length xs) stop) xs)"

text \<open>\<^verbatim>\<open>enumerate(xs, i)\<close>.\<close>

fun enumerate_from :: "int \<Rightarrow> 'a list \<Rightarrow> (int \<times> 'a) list" where
  "enumerate_from i [] = []"
| "enumerate_from i (x # xs) = (i, x) # enumerate_from (i + 1) xs"

definition no_matches_message :: ustr where
  "no_matches_message =
     [10060, 32, 60, 98, 62, 1057, 1086, 1074, 1087, 1072, 1076, 1077, 1085, 1080, 1081,
      32, 1085, 1077, 32, 1085, 1072, 1081, 1076, 1077, 1085, 1086, 60, 47, 98, 62, 10,
      10, 1055, 1086, 1087, 1088, 1086, 1073, 1091, 1081, 1090, 1077, 32, 1080, 1079,
      1084, 1077, 1085, 1080, 1090, 1100, 32, 1082, 1083, 1102, 1095, 1077, 1074, 1099,
      1077, 32, 1089, 1083, 1086, 1074, 1072, 32, 1080, 1083, 1080, 32, 1082, 1072, 1085,
      1072, 1083, 1099, 46]"

text \<open>The heading of a page, after its leading emoji: the title in bold, then the number of
  results and the page number in parentheses, then an empty line.\<close>

definition results_heading :: "nat \<Rightarrow> int \<Rightarrow> ustr" where
  "results_heading total_results page =
     [32, 60, 98, 62, 1056, 1077, 1079, 1091, 1083, 1100, 1090, 1072, 1090, 1099, 32,
      1087, 1086, 1080, 1089, 1082, 1072, 60, 47, 98, 62, 32, 40]
     @ str_of_int (int total_results)
     @ [32, 1085, 1072, 1081, 1076, 1077, 1085, 1086, 44, 32, 1089, 1090, 1088, 46, 32]
     @ str_of_int page @ [41, 10, 10]"

text \<open>One pass of the loop of \<^verbatim>\<open>format_search_results_as_text\<close>; the dash U+2014 stands
  for a missing link.\<close>

definition text_entry :: "int \<times> SearchResult \<Rightarrow> ustr" where
  "text_entry e =
     (case e of (i, result) \<Rightarrow>
        ascii ''<b>'' @ str_of_int i @ ascii ''.</b> '' @ channel result @ [10]
        @ [128197, 32] @ date result @ [10]
        @ [128172, 32] @ snippet result @ [10]
        @ (if link result \<noteq> [8212] then [128279, 32] @ link result @ [10] else [])
        @ [10])"

definition text_page :: "nat \<Rightarrow> int \<Rightarrow> (int \<times> SearchResult) list \<Rightarrow> ustr" where
  "text_page total_results page numbered =
     128269 # results_heading total_results page @ concat (map text_entry numbered)"

definition format_search_results_as_text :: "SearchResult list \<Rightarrow> int \<Rightarrow> int \<Rightarrow> ustr" where
  "format_search_results_as_text results page per_page =
     (if results = [] then no_matches_message
      else let start_idx = (page - 1) * per_page;
               end_idx = start_idx + per_page;
               page_results = py_slice results start_idx end_idx
           in text_page (length results) page (enumerate_from (start_idx + 1) page_results))"

text \<open>\<^verbatim>\<open>s.replace("|", "\\|").replace("\n", " ")\<close>.\<close>

definition escape_cell :: "ustr \<Rightarrow> ustr" where
  "escape_cell s =
     map (\<lambda>c. if c = 10 then 32 else c) (concat (map (\<lambda>c. if c = 124 then [92, 124] else [c]) s))"

definition table_row :: "int \<times> SearchResult \<Rightarrow> ustr" where
  "table_row e =
     (case e of (i, result) \<Rightarrow>
        let chan = escape_cell (channel result);
            snip = escape_cell (snippet result);
            snip = (if length snip > 50 then take 47 snip @ ascii ''...'' else snip);
            chan = (if length chan > 20 then take 17 chan @ ascii ''...'' else chan)
        in ascii ''| '' @ str_of_int i @ ascii '' | '' @ chan @ ascii '' | '' @ date result
           @ ascii '' | '' @ snip @ ascii '' | '' @ link result @ ascii '' |'' @ [10])"

definition table_page :: "nat \<Rightarrow> int \<Rightarrow> (int \<times> SearchResult) list \<Rightarrow> ustr" where
  "table_page total_results page numbered =
     128202 # results_heading total_results page
     @ [124, 32, 35, 32, 124, 32, 1050, 1072, 1085, 1072, 1083, 32, 124, 32, 1044, 1072,
        1090, 1072, 32, 124, 32, 1058, 1077, 1082, 1089, 1090, 32, 124, 32, 1057, 1089,
        1099, 1083, 1082, 1072, 32, 124, 10]
     @ ascii ''|----|-------|------|-------|--------|'' @ [10]
     @ concat (map table_row numbered)"

definition format_search_results_as_table :: "SearchResult list \<Rightarrow> int \<Rightarrow> int \<Rightarrow> ustr" where
  "format_search_results_as_table results page per_page =
     (if results = [] then no_matches_message
      else let start_idx = (page - 1) * per_page;
               end_idx = start_idx + per_page;
               page_results = py_slice results start_idx end_idx
           in table_page (length results) page (enumerate_from (start_idx + 1) page_results))"

definition format_search_results :: "SearchResult list \<Rightarrow> int \<Rightarrow> int \<Rightarrow> bool \<Rightarrow> ustr" where
  "format_search_results results page per_page use_table =
     (if use_table then format_search_results_as_table results page per_page
      else format_search_results_as_text results page per_page)"


text \<open>Results for the examples of the formatter.\<close>

definition demo_result :: "int \<Rightarrow> SearchResult" where
  "demo_result n =
     \<lparr>channel = ascii ''Demo'', message_id = n, date = ascii ''01.02.24 10:30'',
      snippet = ascii ''I like python a lot.'', link = [8212]\<rparr>"


section \<open>Channel searcher\<close>

text \<open>
  The channel-reading client is outside the repository; the model holds what the
  searcher reads of it. A message has an id, a text (\<^verbatim>\<open>message.message\<close>, possibly
  \<^verbatim>\<open>None\<close>) and a date; \<open>msg_date\<close> is the text that
  \<^verbatim>\<open>message.date.strftime("%d.%m.%y %H:%M")\<close> returns, and \<open>None\<close> when the message has no
  date, where that call raises. An iteration over a channel yields messages and may
  itself raise. \<^verbatim>\<open>get_entity\<close> returns an entity, raises \<^verbatim>\<open>RPCError\<close>, or raises
  something else.
\<close>

record message =
  msg_id :: int
  msg_text :: "ustr option"
  msg_date :: "ustr option"

datatype fetched = Message message | IterationError

record entity =
  username :: "ustr option"
  title :: "ustr option"

datatype lookup = Entity entity | RPCError | OtherError

record telethon =
  is_connected :: bool
  connect_succeeds :: bool
  is_user_authorized :: bool
  get_entity :: "ustr \<Rightarrow> lookup"
  iter_messages :: "entity \<Rightarrow> fetched list"

text \<open>The calls made on the client, in order, and the module's state: the flag
  \<^verbatim>\<open>TELETHON_AVAILABLE\<close>, the client (or \<^verbatim>\<open>None\<close>), the files of the cache directory.\<close>

datatype call = GetEntity ustr | IterMessages ustr

record world =
  TELETHON_AVAILABLE :: bool
  telethon_client :: "telethon option"
  files :: "cache_key \<rightharpoonup> cache_file"
  calls :: "call list"








subsection \<open>The searcher in the words of the specification\<close>









subsection \<open>A client for the examples\<close>












section \<open>Properties of the string primitives\<close>

lemma startswith_iff: "startswith s p \<longleftrightarrow> (\<exists>r. s = p @ r)"
  by (induction s p rule: startswith.induct) auto

lemma str_contains_iff: "str_contains s needle \<longleftrightarrow> sublist needle s"
proof (induction s)
  case Nil
  then show ?case by simp
next
  case (Cons c cs)
  have "sublist needle (c # cs) \<longleftrightarrow> prefix needle (c # cs) \<or> sublist needle cs"
    by (simp add: sublist_Cons_right)
  moreover have "startswith (c # cs) needle \<longleftrightarrow> prefix needle (c # cs)"
    by (auto simp: startswith_iff prefix_def)
  ultimately show ?case using Cons.IH by simp
qed

lemma endswith_iff: "endswith s e \<longleftrightarrow> (\<exists>r. s = r @ e)"
proof
  assume "endswith s e"
  then have "s = take (length s - length e) s @ e"
    by (metis append_take_drop_id endswith_def)
  then show "\<exists>r. s = r @ e" ..
next
  assume "\<exists>r. s = r @ e"
  then show "endswith s e" by (auto simp: endswith_def)
qed

lemma match_endings_iff:
  "match_endings w k es \<longleftrightarrow> (\<exists>e \<in> set es. w = k @ e \<or> k = w @ e)"
proof (induction es)
  case Nil
  then show ?case by simp
next
  case (Cons e es)
  have "endswith k e \<and> w = take (length k - length e) k \<longleftrightarrow> k = w @ e"
    by (auto simp: endswith_iff)
  then show ?case using Cons.IH by auto
qed

section \<open>The rolling rows compute the recurrence\<close>

lemma lev_prefix_sym: "lev_prefix a b i j = lev_prefix b a j i"
proof (induction a b i j rule: lev_prefix.induct)
  case (1 a b j)
  then show ?case by (cases j) simp_all
next
  case (2 a b i)
  then show ?case by simp
next
  case (3 a b i j)
  then show ?case by (simp add: min.left_commute eq_commute [of "a ! i"])
qed

lemma lev_row_correct:
  assumes prev: "\<forall>j \<le> length s2. previous_row ! j = lev_prefix s1 s2 i j"
  shows "j \<le> length s2 \<Longrightarrow>
         current_row = map (lev_prefix s1 s2 (Suc i)) [0..<Suc j] \<Longrightarrow>
         lev_row (s1 ! i) previous_row (enumerate j (drop j s2)) current_row
           = map (lev_prefix s1 s2 (Suc i)) [0..<Suc (length s2)]"
proof (induction "length s2 - j" arbitrary: j current_row)
  case 0
  then show ?case by simp
next
  case (Suc d)
  then have lt: "j < length s2" by simp
  then have dr: "drop j s2 = s2 ! j # drop (Suc j) s2"
    by (simp add: Cons_nth_drop_Suc)
  have cj: "current_row ! j = lev_prefix s1 s2 (Suc i) j"
    by (simp add: Suc.prems(2) nth_append)
  let ?v = "min (previous_row ! (j + 1) + 1)
                (min (current_row ! j + 1)
                     (previous_row ! j + (if s1 ! i \<noteq> s2 ! j then 1 else 0)))"
  let ?new = "current_row @ [?v]"
  have p1: "previous_row ! Suc j = lev_prefix s1 s2 i (Suc j)"
    using prev lt by simp
  have p0: "previous_row ! j = lev_prefix s1 s2 i j"
    using prev lt by simp
  have step: "?v = lev_prefix s1 s2 (Suc i) (Suc j)"
    by (simp add: p1 p0 cj)
  have new: "?new = map (lev_prefix s1 s2 (Suc i)) [0..<Suc (Suc j)]"
    unfolding step using Suc.prems(2) by simp
  have "lev_row (s1 ! i) previous_row (enumerate j (drop j s2)) current_row
          = lev_row (s1 ! i) previous_row (enumerate (Suc j) (drop (Suc j) s2)) ?new"
    by (simp add: dr Let_def)
  also have "\<dots> = map (lev_prefix s1 s2 (Suc i)) [0..<Suc (length s2)]"
  proof (rule Suc.hyps(1))
    show "d = length s2 - Suc j" using Suc.hyps(2) by simp
    show "Suc j \<le> length s2" using lt by simp
    show "?new = map (lev_prefix s1 s2 (Suc i)) [0..<Suc (Suc j)]" by (rule new)
  qed
  finally show ?case .
qed

lemma lev_rows_correct:
  "i \<le> length s1 \<Longrightarrow>
   lev_rows (enumerate i (drop i s1)) s2 (map (lev_prefix s1 s2 i) [0..<Suc (length s2)])
     = map (lev_prefix s1 s2 (length s1)) [0..<Suc (length s2)]"
proof (induction "length s1 - i" arbitrary: i)
  case 0
  then show ?case by simp
next
  case (Suc d)
  then have lt: "i < length s1" by simp
  then have dr: "drop i s1 = s1 ! i # drop (Suc i) s1"
    by (simp add: Cons_nth_drop_Suc)
  let ?prev = "map (lev_prefix s1 s2 i) [0..<Suc (length s2)]"
  have prev: "\<forall>j \<le> length s2. ?prev ! j = lev_prefix s1 s2 i j"
    by (auto simp del: upt_Suc)
  have row: "lev_row (s1 ! i) ?prev (enumerate 0 s2) [i + 1]
               = map (lev_prefix s1 s2 (Suc i)) [0..<Suc (length s2)]"
    using lev_row_correct [OF prev, of 0 "[i + 1]"] by simp
  have "lev_rows (enumerate i (drop i s1)) s2 ?prev
          = lev_rows (enumerate (Suc i) (drop (Suc i) s1)) s2
              (lev_row (s1 ! i) ?prev (enumerate 0 s2) [i + 1])"
    by (simp add: dr)
  also have "\<dots> = map (lev_prefix s1 s2 (length s1)) [0..<Suc (length s2)]"
    unfolding row
  proof (rule Suc.hyps(1))
    show "d = length s1 - Suc i" using Suc.hyps(2) by simp
    show "Suc i \<le> length s1" using lt by simp
  qed
  finally show ?case .
qed

lemma lev_ordered_correct: "lev_ordered s1 s2 = levenshtein s1 s2"
proof (cases "length s2 = 0")
  case True
  then show ?thesis
    by (cases "length s1") (simp_all add: lev_ordered_def levenshtein_def)
next
  case False
  have "[0..<length s2 + 1] = map (lev_prefix s1 s2 0) [0..<Suc (length s2)]"
    by (simp add: map_idI)
  then have "lev_rows (enumerate 0 s1) s2 [0..<length s2 + 1]
               = map (lev_prefix s1 s2 (length s1)) [0..<Suc (length s2)]"
    using lev_rows_correct [of 0 s1 s2] by simp
  then show ?thesis
    using False by (simp add: lev_ordered_def levenshtein_def last_map)
qed

lemma levenshtein_distance_correct: "levenshtein_distance s1 s2 = levenshtein s1 s2"
  by (simp add: levenshtein_distance_def lev_ordered_correct levenshtein_def
      lev_prefix_sym [of s2 s1])

section \<open>What the matcher decides\<close>

text \<open>
  C6. For a keyword of at most 6 characters and a word of at most 8 characters, if the
  Levenshtein distance between the lower-cased word and the lower-cased keyword is at
  most 2, then \<open>fuzzy_match_word\<close> returns true, whether or not an equality, substring
  or suffix relation holds. The lengths are those of the strings as given, the distance
  is between the lowered strings, whatever \<^verbatim>\<open>str.lower()\<close> returns.
\<close>

theorem fuzzy_match_word_short_edit_distance:
  "length keyword \<le> 6 \<Longrightarrow> length word \<le> 8 \<Longrightarrow>
   levenshtein (lower word) (lower keyword) \<le> 2 \<Longrightarrow>
   fuzzy_match_word lower word keyword"
  by (simp add: fuzzy_match_word_def Let_def levenshtein_distance_correct)

text \<open>The example of the specification: \<^verbatim>\<open>pythom\<close> against \<^verbatim>\<open>python\<close> is at distance 1,
  with no equality, substring or suffix relation, and matches.\<close>

theorem fuzzy_match_word_short_edit_distance_witness:
  "length (ascii ''python'') \<le> 6 \<and> length (ascii ''pythom'') \<le> 8
   \<and> levenshtein (ascii_lower (ascii ''pythom'')) (ascii_lower (ascii ''python'')) = 1
   \<and> ascii_lower (ascii ''pythom'') \<noteq> ascii_lower (ascii ''python'')
   \<and> \<not> sublist (ascii_lower (ascii ''python'')) (ascii_lower (ascii ''pythom''))
   \<and> \<not> suffix_relation (ascii_lower (ascii ''pythom'')) (ascii_lower (ascii ''python''))
   \<and> fuzzy_match_word ascii_lower (ascii ''pythom'') (ascii ''python'')"
proof -
  have len: "length (ascii ''python'') \<le> 6" "length (ascii ''pythom'') \<le> 8"
    by (simp_all add: ascii_def)
  have dist: "levenshtein (ascii_lower (ascii ''pythom'')) (ascii_lower (ascii ''python'')) = 1"
    unfolding levenshtein_distance_correct [symmetric] by code_simp
  have ne: "ascii_lower (ascii ''pythom'') \<noteq> ascii_lower (ascii ''python'')"
    by code_simp
  have sub: "\<not> str_contains (ascii_lower (ascii ''pythom'')) (ascii_lower (ascii ''python''))"
    by code_simp
  have suf: "\<not> suffix_relation (ascii_lower (ascii ''pythom'')) (ascii_lower (ascii ''python''))"
    by code_simp
  have "fuzzy_match_word ascii_lower (ascii ''pythom'') (ascii ''python'')"
    using fuzzy_match_word_short_edit_distance
            [of "ascii ''python''" "ascii ''pythom''" ascii_lower] len dist
    by simp
  then show ?thesis
    using len dist ne sub suf by (simp add: str_contains_iff)
qed

text \<open>
  C7. When the lower-cased strings differ, the lower-cased keyword is not a substring of
  the lower-cased word, no ending of the fixed list relates them, and either the keyword
  is longer than 6 characters, or the word is longer than 8, or their Levenshtein
  distance exceeds 2, then \<open>fuzzy_match_word\<close> returns false.
\<close>

theorem fuzzy_match_word_no_relation:
  "lower word \<noteq> lower keyword \<Longrightarrow>
   \<not> sublist (lower keyword) (lower word) \<Longrightarrow>
   \<not> suffix_relation (lower word) (lower keyword) \<Longrightarrow>
   6 < length keyword \<or> 8 < length word
     \<or> 2 < levenshtein (lower word) (lower keyword) \<Longrightarrow>
   \<not> fuzzy_match_word lower word keyword"
  by (auto simp: fuzzy_match_word_def Let_def levenshtein_distance_correct
      str_contains_iff match_endings_iff suffix_relation_def)

text \<open>The example of the specification: \<^verbatim>\<open>banana\<close> against \<^verbatim>\<open>python\<close> is at distance 6
  and does not match.\<close>

theorem fuzzy_match_word_no_relation_witness:
  "ascii_lower (ascii ''banana'') \<noteq> ascii_lower (ascii ''python'')
   \<and> \<not> sublist (ascii_lower (ascii ''python'')) (ascii_lower (ascii ''banana''))
   \<and> \<not> suffix_relation (ascii_lower (ascii ''banana'')) (ascii_lower (ascii ''python''))
   \<and> 2 < levenshtein (ascii_lower (ascii ''banana'')) (ascii_lower (ascii ''python''))
   \<and> \<not> fuzzy_match_word ascii_lower (ascii ''banana'') (ascii ''python'')"
proof -
  have ne: "ascii_lower (ascii ''banana'') \<noteq> ascii_lower (ascii ''python'')"
    by code_simp
  have sub: "\<not> str_contains (ascii_lower (ascii ''banana'')) (ascii_lower (ascii ''python''))"
    by code_simp
  then have sub': "\<not> sublist (ascii_lower (ascii ''python'')) (ascii_lower (ascii ''banana''))"
    by (simp add: str_contains_iff)
  have suf: "\<not> suffix_relation (ascii_lower (ascii ''banana'')) (ascii_lower (ascii ''python''))"
    by code_simp
  have dist: "2 < levenshtein (ascii_lower (ascii ''banana'')) (ascii_lower (ascii ''python''))"
    unfolding levenshtein_distance_correct [symmetric] by code_simp
  have "\<not> fuzzy_match_word ascii_lower (ascii ''banana'') (ascii ''python'')"
    using fuzzy_match_word_no_relation
            [of ascii_lower "ascii ''banana''" "ascii ''python''"] ne sub' suf dist
    by blast
  then show ?thesis
    using ne sub' suf dist by simp
qed

section \<open>Keyword validation and sentence extraction\<close>

lemma validate_loop_eq:
  "validate_loop kws validated =
     validated @ map (take 50) (filter (\<lambda>kw. 2 \<le> length kw) (map py_strip kws))"
  by (induction kws arbitrary: validated) (auto simp: Let_def)

lemma validate_keywords_eq:
  "validate_keywords kws =
     take 10 (map (take 50) (filter (\<lambda>kw. 2 \<le> length kw) (map py_strip kws)))"
  by (simp add: validate_keywords_def validate_loop_eq)

text \<open>
  C10. The output of \<open>validate_keywords\<close> has at most 10 elements, each of length 2 to
  50. It is made of the stripped input keywords of length at least 2, in input order,
  each cut to its first 50 characters (so a long keyword is kept, truncated, and a
  keyword shorter than 2 after stripping is dropped), and of these the first 10.
\<close>

theorem validate_keywords_bounds:
  "length (validate_keywords kws) \<le> 10
   \<and> (\<forall>kw \<in> set (validate_keywords kws). 2 \<le> length kw \<and> length kw \<le> 50)
   \<and> validate_keywords kws =
       take 10 (map (take 50) (filter (\<lambda>kw. 2 \<le> length kw) (map py_strip kws)))"
proof (intro conjI ballI)
  show "length (validate_keywords kws) \<le> 10"
    unfolding validate_keywords_eq
    by (rule order_trans [OF eq_refl [OF length_take] min.cobounded2])
next
  fix kw
  assume "kw \<in> set (validate_keywords kws)"
  then have "kw \<in> set (map (take 50) (filter (\<lambda>kw. 2 \<le> length kw) (map py_strip kws)))"
    unfolding validate_keywords_eq by (rule in_set_takeD)
  then obtain k where k: "2 \<le> length k" and kw: "kw = take 50 k"
    by auto
  show "2 \<le> length kw" using k kw by simp
  show "length kw \<le> 50" using kw by simp
next
  show "validate_keywords kws =
       take 10 (map (take 50) (filter (\<lambda>kw. 2 \<le> length kw) (map py_strip kws)))"
    by (rule validate_keywords_eq)
qed

text \<open>Three keywords: one with surrounding blanks, one of a single character, one of 60
  characters.\<close>

theorem validate_keywords_bounds_witness:
  "validate_keywords [ascii ''  ab '', ascii ''x'', replicate 60 97]
     = [ascii ''ab'', replicate 50 97]
   \<and> length (validate_keywords [ascii ''  ab '', ascii ''x'', replicate 60 97]) \<le> 10
   \<and> ascii ''ab'' \<in> set (validate_keywords [ascii ''  ab '', ascii ''x'', replicate 60 97])
   \<and> 2 \<le> length (ascii ''ab'') \<and> length (ascii ''ab'') \<le> 50"
proof -
  let ?inp = "[ascii ''  ab '', ascii ''x'', replicate 60 97]"
  have val: "validate_keywords ?inp = [ascii ''ab'', replicate 50 97]"
    by code_simp
  have mem: "ascii ''ab'' \<in> set (validate_keywords ?inp)"
    unfolding val by (rule list.set_intros(1))
  note bnd = validate_keywords_bounds [of ?inp]
  have len: "length (validate_keywords ?inp) \<le> 10"
    by (rule conjunct1 [OF bnd])
  have each: "2 \<le> length (ascii ''ab'') \<and> length (ascii ''ab'') \<le> 50"
    by (rule bspec [OF conjunct1 [OF conjunct2 [OF bnd]] mem])
  show ?thesis
    by (intro conjI val len mem conjunct1 [OF each] conjunct2 [OF each])
qed

text \<open>
  C2. The claim keeps a relevant sentence whose normalized form has at least 10
  characters. The source compares with \<^verbatim>\<open>len(clean_sentence) > 10\<close>, under the comment
  that asks for a minimum of 10 characters: the relevant sentence \<^verbatim>\<open>python abc\<close>, of
  exactly 10 characters, is discarded, and \<^verbatim>\<open>python abcd\<close>, of 11, is kept.
\<close>

theorem extract_relevant_sentences_exactly_ten:
  "length (join [32] (split_whitespace [] (ascii ''python abc''))) = 10
   \<and> list_ex (\<lambda>word. list_ex (fuzzy_match_word ascii_lower word) [ascii ''python''])
        (find_words ascii_word [] (py_strip (ascii_lower (ascii ''python abc''))))
   \<and> extract_relevant_sentences ascii_lower ascii_word (ascii ''python abc'')
         [ascii ''python''] = []
   \<and> extract_relevant_sentences ascii_lower ascii_word (ascii ''python abcd'')
         [ascii ''python''] = [ascii ''python abcd'']"
  by code_simp

section \<open>The cache\<close>

lemma of_item_to_item: "of_item (to_item r) = Some r"
  by (cases r) (simp add: of_item_def to_item_def)

lemma those_of_item_to_item: "those (map of_item (map to_item rs)) = Some rs"
  by (induction rs) (simp_all add: of_item_to_item)




text \<open>
  C9. When the record of a key is an entry written at time \<open>t\<close>, a load of that key at a
  time later than \<open>t + CACHE_TTL\<close> (3600 seconds) returns \<open>None\<close> and deletes the record
  before returning; a load at a time up to \<open>t + CACHE_TTL\<close> returns the stored results
  and leaves the record.
\<close>

theorem load_cached_results_expiry:
  "fs cache_key = Some (Stored t (map to_item rs)) \<Longrightarrow>
   load_cached_results cache_key now fs
     = (if t + CACHE_TTL < now then (None, fs(cache_key := None)) else (Some rs, fs))"
  by (auto simp: load_cached_results_def those_of_item_to_item simp del: map_map)

theorem load_cached_results_expiry_witness:
  "save_cached_results (ascii ''k'')
     [\<lparr>channel = ascii ''Demo'', message_id = 7, date = ascii ''01.02.24 10:30'',
       snippet = ascii ''I like python a lot.'', link = [8212]\<rparr>] 1000 Map.empty (ascii ''k'')
     = Some (Stored 1000 (map to_item
         [\<lparr>channel = ascii ''Demo'', message_id = 7, date = ascii ''01.02.24 10:30'',
           snippet = ascii ''I like python a lot.'', link = [8212]\<rparr>]))
   \<and> fst (load_cached_results (ascii ''k'') 4601
        (save_cached_results (ascii ''k'')
          [\<lparr>channel = ascii ''Demo'', message_id = 7, date = ascii ''01.02.24 10:30'',
            snippet = ascii ''I like python a lot.'', link = [8212]\<rparr>] 1000 Map.empty)) = None
   \<and> snd (load_cached_results (ascii ''k'') 4601
        (save_cached_results (ascii ''k'')
          [\<lparr>channel = ascii ''Demo'', message_id = 7, date = ascii ''01.02.24 10:30'',
            snippet = ascii ''I like python a lot.'', link = [8212]\<rparr>] 1000 Map.empty))
       (ascii ''k'') = None
   \<and> fst (load_cached_results (ascii ''k'') 4600
        (save_cached_results (ascii ''k'')
          [\<lparr>channel = ascii ''Demo'', message_id = 7, date = ascii ''01.02.24 10:30'',
            snippet = ascii ''I like python a lot.'', link = [8212]\<rparr>] 1000 Map.empty))
       = Some
          [\<lparr>channel = ascii ''Demo'', message_id = 7, date = ascii ''01.02.24 10:30'',
            snippet = ascii ''I like python a lot.'', link = [8212]\<rparr>]"
proof -
  let ?rs = "[\<lparr>channel = ascii ''Demo'', message_id = 7, date = ascii ''01.02.24 10:30'',
       snippet = ascii ''I like python a lot.'', link = [8212]\<rparr>]"
  let ?files = "save_cached_results (ascii ''k'') ?rs 1000 Map.empty"
  have stored: "?files (ascii ''k'') = Some (Stored 1000 (map to_item ?rs))"
    by (simp add: save_cached_results_def result_encodable_def encodable_def ascii_def)
  have late: "load_cached_results (ascii ''k'') 4601 ?files
                = (None, ?files(ascii ''k'' := None))"
    using load_cached_results_expiry
            [of ?files "ascii ''k''" 1000 ?rs 4601] stored
    by (simp add: CACHE_TTL_def)
  have edge: "load_cached_results (ascii ''k'') 4600 ?files = (Some ?rs, ?files)"
    using load_cached_results_expiry
            [of ?files "ascii ''k''" 1000 ?rs 4600] stored
    by (simp add: CACHE_TTL_def)
  show ?thesis
    using stored by (simp only: late edge fst_conv snd_conv fun_upd_same simp_thms)
qed

section \<open>Pages of the formatter\<close>

lemma py_slice_page:
  assumes "0 \<le> s" "0 \<le> p"
  shows "py_slice xs s (s + p) = take (nat p) (drop (nat s) xs)"
proof -
  have lo: "slice_index (length xs) s = min (length xs) (nat s)"
    using assms by (simp add: slice_index_def)
  have hi: "slice_index (length xs) (s + p) = min (length xs) (nat s + nat p)"
    using assms by (simp add: slice_index_def nat_add_distrib)
  have "drop (min (length xs) (nat s)) (take (min (length xs) (nat s + nat p)) xs)
          = take (nat p) (drop (nat s) xs)"
    by (cases "nat s \<le> length xs") (simp_all add: drop_take min_def)
  then show ?thesis
    by (simp only: py_slice_def lo hi)
qed

lemma py_slice_stop_0: "py_slice xs s 0 = []"
  by (simp add: py_slice_def slice_index_def)

lemma text_page_not_message: "text_page n p es \<noteq> no_matches_message"
  by (simp add: text_page_def no_matches_message_def)

lemma table_page_not_message: "table_page n p es \<noteq> no_matches_message"
  by (simp add: table_page_def no_matches_message_def)

lemma format_search_results_unfold:
  "results \<noteq> [] \<Longrightarrow>
   format_search_results results page per_page use_table =
     (if use_table then table_page else text_page) (length results) page
       (enumerate_from ((page - 1) * per_page + 1)
          (py_slice results ((page - 1) * per_page) ((page - 1) * per_page + per_page)))"
  by (simp add: format_search_results_def format_search_results_as_text_def
      format_search_results_as_table_def Let_def)

text \<open>
  C4, amended. The fixed message is returned exactly when the result list is empty,
  whatever the page and the page size. For a non-empty list, a page number of at least 1
  and a page size of at least 0, the rendering holds exactly the entries of the slice
  from \<open>(page - 1) * per_page\<close> to \<open>(page - 1) * per_page + per_page\<close>, numbered from
  \<open>(page - 1) * per_page + 1\<close>; a page past the last one, and page 0, give a rendering
  with no entry.
\<close>

theorem format_search_results_pages:
  "(format_search_results results page per_page use_table = no_matches_message
      \<longleftrightarrow> results = [])
   \<and> (results \<noteq> [] \<longrightarrow> 1 \<le> page \<longrightarrow> 0 \<le> per_page \<longrightarrow>
        format_search_results results page per_page use_table =
          (if use_table then table_page else text_page) (length results) page
            (enumerate_from ((page - 1) * per_page + 1)
               (take (nat per_page) (drop (nat ((page - 1) * per_page)) results))))
   \<and> (results \<noteq> [] \<longrightarrow>
        page = 0 \<or> (1 \<le> page \<and> 0 \<le> per_page
                    \<and> int (length results) \<le> (page - 1) * per_page) \<longrightarrow>
        format_search_results results page per_page use_table =
          (if use_table then table_page else text_page) (length results) page [])"
proof (intro conjI impI)
  show "format_search_results results page per_page use_table = no_matches_message
          \<longleftrightarrow> results = []"
  proof (cases "results = []")
    case True
    then show ?thesis
      by (simp add: format_search_results_def format_search_results_as_text_def
          format_search_results_as_table_def)
  next
    case False
    then show ?thesis
      by (simp add: format_search_results_unfold text_page_not_message
          table_page_not_message)
  qed
next
  assume ne: "results \<noteq> []" and page: "1 \<le> page" and size: "0 \<le> per_page"
  have "0 \<le> (page - 1) * per_page"
    using page size by simp
  then have "py_slice results ((page - 1) * per_page) ((page - 1) * per_page + per_page)
               = take (nat per_page) (drop (nat ((page - 1) * per_page)) results)"
    using size by (rule py_slice_page)
  then show "format_search_results results page per_page use_table =
          (if use_table then table_page else text_page) (length results) page
            (enumerate_from ((page - 1) * per_page + 1)
               (take (nat per_page) (drop (nat ((page - 1) * per_page)) results)))"
    by (simp only: format_search_results_unfold [OF ne])
next
  assume ne: "results \<noteq> []"
    and out: "page = 0 \<or> (1 \<le> page \<and> 0 \<le> per_page
                \<and> int (length results) \<le> (page - 1) * per_page)"
  have "py_slice results ((page - 1) * per_page) ((page - 1) * per_page + per_page) = []"
  proof (cases "page = 0")
    case True
    then show ?thesis by (simp add: py_slice_stop_0)
  next
    case False
    with out have page: "1 \<le> page" and size: "0 \<le> per_page"
      and past: "int (length results) \<le> (page - 1) * per_page"
      by simp_all
    have "0 \<le> (page - 1) * per_page"
      using page size by simp
    then have "py_slice results ((page - 1) * per_page) ((page - 1) * per_page + per_page)
                 = take (nat per_page) (drop (nat ((page - 1) * per_page)) results)"
      using size by (rule py_slice_page)
    moreover have "drop (nat ((page - 1) * per_page)) results = []"
      using past by simp
    ultimately show ?thesis by simp
  qed
  then show "format_search_results results page per_page use_table =
          (if use_table then table_page else text_page) (length results) page []"
    by (simp add: format_search_results_unfold [OF ne])
qed

text \<open>The example of the specification: 12 results in pages of 5. Page 3 holds the
  entries 11 and 12, page 4 holds none, and an empty result list gives the message.\<close>

theorem format_search_results_pages_witness:
  "format_search_results (map demo_result [1, 2, 3, 4, 5, 6, 7, 8, 9, 10, 11, 12]) 3 5 False
     = text_page 12 3 [(11, demo_result 11), (12, demo_result 12)]
   \<and> format_search_results (map demo_result [1, 2, 3, 4, 5, 6, 7, 8, 9, 10, 11, 12]) 3 5 True
     = table_page 12 3 [(11, demo_result 11), (12, demo_result 12)]
   \<and> format_search_results (map demo_result [1, 2, 3, 4, 5, 6, 7, 8, 9, 10, 11, 12]) 4 5 False
     = text_page 12 4 []
   \<and> format_search_results (map demo_result [1, 2, 3, 4, 5, 6, 7, 8, 9, 10, 11, 12]) 0 5 False
     = text_page 12 0 []
   \<and> format_search_results [] 3 5 False = no_matches_message"
proof -
  let ?rs = "map demo_result [1, 2, 3, 4, 5, 6, 7, 8, 9, 10, 11, 12]"
  have ne: "?rs \<noteq> []" by simp
  have p3: "format_search_results ?rs 3 5 False
              = text_page 12 3 [(11, demo_result 11), (12, demo_result 12)]"
    using format_search_results_pages [of ?rs 3 5 False] by (simp add: eval_nat_numeral)
  have p3t: "format_search_results ?rs 3 5 True
              = table_page 12 3 [(11, demo_result 11), (12, demo_result 12)]"
    using format_search_results_pages [of ?rs 3 5 True] by (simp add: eval_nat_numeral)
  have p4: "format_search_results ?rs 4 5 False = text_page 12 4 []"
    using format_search_results_pages [of ?rs 4 5 False] by (simp add: eval_nat_numeral)
  have p0: "format_search_results ?rs 0 5 False = text_page 12 0 []"
    using format_search_results_pages [of ?rs 0 5 False] by (simp add: eval_nat_numeral)
  have none: "format_search_results [] 3 5 False = no_matches_message"
    using format_search_results_pages [of "[]" 3 5 False] by simp
  show ?thesis
    by (intro conjI p3 p3t p4 p0 none)
qed

text \<open>The claim as stated fails on a negative page: with two results and pages of one,
  page \<open>-1\<close> is the slice from \<open>-2\<close> to \<open>-1\<close>, which holds the first result, and the
  rendering shows it under the number \<open>-1\<close>. It fails on a negative page size as well:
  page 1 with pages of \<open>-1\<close> is the slice from \<open>0\<close> to \<open>-1\<close>, which holds the first
  result too.\<close>

theorem format_search_results_negative_page:
  "format_search_results [demo_result 1, demo_result 2] (- 1) 1 False
     = text_page 2 (- 1) [(- 1, demo_result 1)]
   \<and> text_page 2 (- 1) [(- 1, demo_result 1)] \<noteq> text_page 2 (- 1) []
   \<and> format_search_results [demo_result 1, demo_result 2] 1 (- 1) False
     = text_page 2 1 [(1, demo_result 1)]"
  by (simp add: format_search_results_def format_search_results_as_text_def Let_def
      py_slice_def slice_index_def text_page_def text_entry_def eval_nat_numeral)

section \<open>The loops of the searcher\<close>






section \<open>What a search returns\<close>













end
